theory Spec2Isabelle
  imports Complex_Main
begin

section \<open>Numbers\<close>

text \<open>
  A JavaScript number is a real number or one of the three non-finite values. Arithmetic
  follows IEEE 754 on these four kinds of value; rounding, overflow and the sign of zero
  are not modelled (a zero divisor counts as \<open>+0\<close>). The ratio that the route handler
  classifies and the arguments of \<open>calculateNetProfit\<close> are such numbers; the readings of
  the history and the metrics of the workflow engine are plain reals.
\<close>

datatype jsnum = Fin real | PInf | NInf | NaN

fun juminus :: "jsnum \<Rightarrow> jsnum" where
  "juminus (Fin a) = Fin (- a)"
| "juminus PInf = NInf"
| "juminus NInf = PInf"
| "juminus NaN = NaN"

fun jabs :: "jsnum \<Rightarrow> jsnum" where
  "jabs (Fin a) = Fin \<bar>a\<bar>"
| "jabs PInf = PInf"
| "jabs NInf = PInf"
| "jabs NaN = NaN"

fun jadd :: "jsnum \<Rightarrow> jsnum \<Rightarrow> jsnum" where
  "jadd NaN _ = NaN"
| "jadd _ NaN = NaN"
| "jadd (Fin a) (Fin b) = Fin (a + b)"
| "jadd (Fin a) PInf = PInf"
| "jadd (Fin a) NInf = NInf"
| "jadd PInf (Fin b) = PInf"
| "jadd NInf (Fin b) = NInf"
| "jadd PInf PInf = PInf"
| "jadd NInf NInf = NInf"
| "jadd PInf NInf = NaN"
| "jadd NInf PInf = NaN"

definition jsub :: "jsnum \<Rightarrow> jsnum \<Rightarrow> jsnum" where
  "jsub x y = jadd x (juminus y)"

text \<open>The infinity with the sign of a non-zero real.\<close>

definition inf_signed :: "real \<Rightarrow> jsnum" where
  "inf_signed a = (if 0 < a then PInf else NInf)"

fun jmul :: "jsnum \<Rightarrow> jsnum \<Rightarrow> jsnum" where
  "jmul NaN _ = NaN"
| "jmul _ NaN = NaN"
| "jmul (Fin a) (Fin b) = Fin (a * b)"
| "jmul (Fin a) PInf = (if a = 0 then NaN else inf_signed a)"
| "jmul (Fin a) NInf = (if a = 0 then NaN else inf_signed (- a))"
| "jmul PInf (Fin b) = (if b = 0 then NaN else inf_signed b)"
| "jmul NInf (Fin b) = (if b = 0 then NaN else inf_signed (- b))"
| "jmul PInf PInf = PInf"
| "jmul NInf NInf = PInf"
| "jmul PInf NInf = NInf"
| "jmul NInf PInf = NInf"

fun jdiv :: "jsnum \<Rightarrow> jsnum \<Rightarrow> jsnum" where
  "jdiv NaN _ = NaN"
| "jdiv _ NaN = NaN"
| "jdiv (Fin a) (Fin b) =
     (if b = 0 then (if a = 0 then NaN else inf_signed a) else Fin (a / b))"
| "jdiv (Fin a) PInf = Fin 0"
| "jdiv (Fin a) NInf = Fin 0"
| "jdiv PInf (Fin b) = (if 0 \<le> b then PInf else NInf)"
| "jdiv NInf (Fin b) = (if 0 \<le> b then NInf else PInf)"
| "jdiv PInf PInf = NaN"
| "jdiv NInf NInf = NaN"
| "jdiv PInf NInf = NaN"
| "jdiv NInf PInf = NaN"

text \<open>The comparison \<open>x < y\<close> of JavaScript: false as soon as one side is NaN.\<close>

fun jlt :: "jsnum \<Rightarrow> jsnum \<Rightarrow> bool" where
  "jlt NaN _ = False"
| "jlt _ NaN = False"
| "jlt (Fin a) (Fin b) = (a < b)"
| "jlt (Fin a) PInf = True"
| "jlt (Fin a) NInf = False"
| "jlt PInf _ = False"
| "jlt NInf NInf = False"
| "jlt NInf _ = True"

text \<open>The comparison \<open>x >= y\<close> of JavaScript: false as soon as one side is NaN.\<close>

fun jge :: "jsnum \<Rightarrow> jsnum \<Rightarrow> bool" where
  "jge NaN _ = False"
| "jge _ NaN = False"
| "jge (Fin a) (Fin b) = (a \<ge> b)"
| "jge (Fin a) PInf = False"
| "jge (Fin a) NInf = True"
| "jge PInf _ = True"
| "jge NInf NInf = True"
| "jge NInf _ = False"

text \<open>\<open>Math.max\<close> of two arguments: NaN if either is NaN, the larger otherwise.\<close>

fun jmax :: "jsnum \<Rightarrow> jsnum \<Rightarrow> jsnum" where
  "jmax NaN _ = NaN"
| "jmax _ NaN = NaN"
| "jmax x y = (if jlt x y then y else x)"

section \<open>Protocol status (route handler of \<open>djed/state\<close>)\<close>

datatype protocol_status = OPTIMAL | WARNING | CRITICAL

text \<open>
  The status field of the \<open>djed/state\<close> response:
  \<^verbatim>\<open>reserveRatio >= 400 ? 'OPTIMAL' : reserveRatio >= 200 ? 'WARNING' : 'CRITICAL'\<close>
  The ratio is computed from upstream JSON and is any JavaScript number, NaN included.
\<close>

definition classifyStatus :: "jsnum \<Rightarrow> protocol_status" where
  "classifyStatus reserveRatio =
     (if jge reserveRatio (Fin 400) then OPTIMAL
      else if jge reserveRatio (Fin 200) then WARNING
      else CRITICAL)"

section \<open>Arbitrage page: net profit\<close>

text \<open>
  The four constants that \<open>calculateNetProfit\<close> reads from the environment with
  \<open>parseFloat\<close>; \<open>default_fees\<close> holds the values used when the variables are unset.
\<close>

record fee_config =
  DEX_FEE_PCT :: jsnum
  SLIPPAGE_PCT :: jsnum
  GAS_COST_USD :: jsnum
  DEFAULT_TRADE_AMOUNT :: jsnum

definition default_fees :: fee_config where
  "default_fees = \<lparr>DEX_FEE_PCT = Fin 0.003, SLIPPAGE_PCT = Fin 0.005,
     GAS_COST_USD = Fin 0.50, DEFAULT_TRADE_AMOUNT = Fin 1000\<rparr>"

definition calculateNetProfit ::
  "fee_config \<Rightarrow> jsnum \<Rightarrow> jsnum \<Rightarrow> jsnum \<Rightarrow> jsnum option \<Rightarrow> jsnum" where
  "calculateNetProfit env dexPrice protocolPrice spread tradeAmount =
     (let amount = (case tradeAmount of Some a \<Rightarrow> a | None \<Rightarrow> DEFAULT_TRADE_AMOUNT env);
          tokensTraded = jdiv amount dexPrice;
          grossProfit = jmul tokensTraded (jabs spread);
          dexFee = jmul amount (DEX_FEE_PCT env);
          slippageCost = jmul amount (SLIPPAGE_PCT env);
          totalCosts = jadd (jadd dexFee slippageCost) (GAS_COST_USD env);
          netProfit = jmax (Fin 0) (jsub grossProfit totalCosts)
      in netProfit)"

text \<open>The two quantities as the specification words them.\<close>

definition spec_grossProfit :: "jsnum \<Rightarrow> jsnum \<Rightarrow> jsnum \<Rightarrow> jsnum" where
  "spec_grossProfit amount dexPrice spread = jmul (jdiv amount dexPrice) (jabs spread)"

definition spec_costs :: "fee_config \<Rightarrow> jsnum \<Rightarrow> jsnum" where
  "spec_costs env amount =
     jadd (jadd (jmul amount (DEX_FEE_PCT env)) (jmul amount (SLIPPAGE_PCT env)))
       (GAS_COST_USD env)"

definition trade_amount :: "fee_config \<Rightarrow> jsnum option \<Rightarrow> jsnum" where
  "trade_amount env tradeAmount =
     (case tradeAmount of Some a \<Rightarrow> a | None \<Rightarrow> DEFAULT_TRADE_AMOUNT env)"

section \<open>Arbitrage page: opportunity history\<close>

datatype arb_signal = MINT_DJED | REDEEM_DJED | NO_CLEAR_EDGE

datatype opp_status = detected | expired

text \<open>
  \<open>opp_id\<close> is the number \<open>n\<close> of the identifier \<open>opp-n\<close>; \<open>opp_timestamp\<close> is the
  \<open>getTime()\<close> of the stored date, in milliseconds.
\<close>

record ArbitrageOpportunity =
  opp_id :: int
  opp_timestamp :: int
  opp_signal :: arb_signal
  opp_dexPrice :: real
  opp_protocolPrice :: real
  opp_spread :: real
  opp_spreadPercent :: real
  opp_potentialProfit :: jsnum
  opp_liquidity :: real
  opp_status :: opp_status
  opp_source :: string

text \<open>What the hook \<open>useDexPrice\<close> hands to the page on one render.\<close>

record DexPrice =
  dexPrice :: real
  protocolPrice :: real
  spread :: real
  spreadPercent :: real
  signal :: arb_signal
  liquidity :: real
  source :: string

text \<open>
  The object built by the effect; \<open>created\<close> is the clock reading of the effect, used for
  the identifier and for the timestamp.
\<close>

definition newOpportunity :: "fee_config \<Rightarrow> DexPrice \<Rightarrow> int \<Rightarrow> ArbitrageOpportunity" where
  "newOpportunity env r created =
     \<lparr>opp_id = created,
      opp_timestamp = created,
      opp_signal = signal r,
      opp_dexPrice = dexPrice r,
      opp_protocolPrice = protocolPrice r,
      opp_spread = spread r,
      opp_spreadPercent = spreadPercent r,
      opp_potentialProfit =
        calculateNetProfit env (Fin (dexPrice r)) (Fin (protocolPrice r)) (Fin (spread r)) None,
      opp_liquidity = liquidity r,
      opp_status = detected,
      opp_source = source r\<rparr>"

text \<open>
  The state updater of the first branch. \<open>now\<close> is the clock reading while the updater
  runs (its calls of \<open>Date.now()\<close> are taken as one reading), \<open>prev\<close> the stored
  history, most recent entry first.
\<close>

definition isSignificantChange :: "ArbitrageOpportunity list \<Rightarrow> real \<Rightarrow> int \<Rightarrow> bool" where
  "isSignificantChange prev sp now =
     (case prev of
        [] \<Rightarrow> True
      | lastOpp # _ \<Rightarrow>
          \<bar>opp_spreadPercent lastOpp - sp\<bar> > 0.1 \<or> now - opp_timestamp lastOpp > 60000)"

definition markOld :: "int \<Rightarrow> ArbitrageOpportunity \<Rightarrow> ArbitrageOpportunity" where
  "markOld now opp =
     opp\<lparr>opp_status :=
       (if now - opp_timestamp opp > 300000 \<and> opp_status opp = detected
        then expired else opp_status opp)\<rparr>"

definition addOrUpdate ::
  "ArbitrageOpportunity \<Rightarrow> real \<Rightarrow> int \<Rightarrow> ArbitrageOpportunity list \<Rightarrow> ArbitrageOpportunity list"
  where
  "addOrUpdate newOpp sp now prev =
     (if isSignificantChange prev sp now
      then (let newHistory = take 20 (newOpp # prev) in map (markOld now) newHistory)
      else newOpp # drop 1 prev)"

text \<open>The state updater of the second branch (no signal).\<close>

definition expireAll :: "ArbitrageOpportunity list \<Rightarrow> ArbitrageOpportunity list" where
  "expireAll prev =
     map (\<lambda>opp. opp\<lparr>opp_status :=
            (if opp_status opp = detected then expired else opp_status opp)\<rparr>) prev"

text \<open>One run of the effect: the history after it, from the history before it.\<close>

definition historyEffect ::
  "fee_config \<Rightarrow> DexPrice \<Rightarrow> int \<Rightarrow> int \<Rightarrow> ArbitrageOpportunity list \<Rightarrow> ArbitrageOpportunity list"
  where
  "historyEffect env r created now prev =
     (if signal r \<noteq> NO_CLEAR_EDGE \<and> \<bar>spreadPercent r\<bar> \<ge> 0.5
      then addOrUpdate (newOpportunity env r created) (spreadPercent r) now prev
      else expireAll prev)"

text \<open>A tick: the reading and the two clock readings. A run of ticks starts from a history.\<close>

record tick =
  reading :: DexPrice
  created_at :: int
  updated_at :: int

definition tickEffect ::
  "fee_config \<Rightarrow> ArbitrageOpportunity list \<Rightarrow> tick \<Rightarrow> ArbitrageOpportunity list" where
  "tickEffect env prev t = historyEffect env (reading t) (created_at t) (updated_at t) prev"

definition runTicks ::
  "fee_config \<Rightarrow> tick list \<Rightarrow> ArbitrageOpportunity list \<Rightarrow> ArbitrageOpportunity list" where
  "runTicks env ticks prev = foldl (tickEffect env) prev ticks"

text \<open>A tick that takes the first branch and finds a significant change.\<close>

definition significantTick :: "tick \<Rightarrow> ArbitrageOpportunity list \<Rightarrow> bool" where
  "significantTick t prev =
     (signal (reading t) \<noteq> NO_CLEAR_EDGE \<and> \<bar>spreadPercent (reading t)\<bar> \<ge> 0.5 \<and>
      isSignificantChange prev (spreadPercent (reading t)) (updated_at t))"

fun significantRun :: "fee_config \<Rightarrow> tick list \<Rightarrow> ArbitrageOpportunity list \<Rightarrow> bool" where
  "significantRun env [] prev = True"
| "significantRun env (t # ts) prev =
     (significantTick t prev \<and> significantRun env ts (tickEffect env prev t))"

text \<open>
  The specification's test for "the same opportunity, refreshed": the spread moved by at
  most 0.1 and less than 60 seconds went by.
\<close>

definition spec_sameOpportunity :: "ArbitrageOpportunity \<Rightarrow> real \<Rightarrow> int \<Rightarrow> bool" where
  "spec_sameOpportunity lastOpp sp now =
     (\<bar>opp_spreadPercent lastOpp - sp\<bar> \<le> 0.1 \<and> now - opp_timestamp lastOpp < 60000)"

text \<open>The entry with its status set back to \<open>detected\<close>: what an entry is, its status apart.\<close>

definition asDetected :: "ArbitrageOpportunity \<Rightarrow> ArbitrageOpportunity" where
  "asDetected opp = opp\<lparr>opp_status := detected\<rparr>"

text \<open>The opportunity that the effect builds on a tick.\<close>

definition tickOpportunity :: "fee_config \<Rightarrow> tick \<Rightarrow> ArbitrageOpportunity" where
  "tickOpportunity env t = newOpportunity env (reading t) (created_at t)"

subsection \<open>Sample inputs\<close>

definition mint_reading :: DexPrice where
  "mint_reading = \<lparr>dexPrice = 1.01, protocolPrice = 1, spread = 0.01, spreadPercent = 1,
     signal = MINT_DJED, liquidity = 50000, source = ''spectrum''\<rparr>"

definition quiet_reading :: DexPrice where
  "quiet_reading = \<lparr>dexPrice = 1.002, protocolPrice = 1, spread = 0.002, spreadPercent = 0.2,
     signal = NO_CLEAR_EDGE, liquidity = 50000, source = ''spectrum''\<rparr>"

text \<open>A stored entry with the spread of \<open>mint_reading\<close>, detected at the given time.\<close>

definition stored_at :: "int \<Rightarrow> ArbitrageOpportunity" where
  "stored_at t = newOpportunity default_fees mint_reading t"

text \<open>Twenty-five ticks a second apart, the spread one point wider on each.\<close>

definition rising_reading :: "nat \<Rightarrow> DexPrice" where
  "rising_reading k = \<lparr>dexPrice = 1 + (1 + real k) / 100, protocolPrice = 1,
     spread = (1 + real k) / 100, spreadPercent = 1 + real k,
     signal = MINT_DJED, liquidity = 50000, source = ''spectrum''\<rparr>"

definition rising_tick :: "nat \<Rightarrow> tick" where
  "rising_tick k = \<lparr>reading = rising_reading k, created_at = 1000 * int k,
     updated_at = 1000 * int k + 1\<rparr>"

definition rising_ticks :: "tick list" where
  "rising_ticks = map rising_tick [0..<25]"

section \<open>Workflow engine\<close>

text \<open>
  The condition types are those that \<open>evaluateCondition\<close> switches on; the value of a
  condition is optional.
\<close>

datatype condition_type = dsi_below | dsi_above | price_below | price_above | always

record condition =
  cond_type :: condition_type
  cond_value :: "real option"

text \<open>
  The fields of a node that the engine reads; name, position and outputs live in the
  extension of the record.
\<close>

record WorkflowNode =
  node_id :: string
  node_type :: string
  node_condition :: "condition option"

record connection =
  conn_from :: string
  conn_to :: string

record Workflow =
  wf_id :: string
  wf_name :: string
  nodes :: "WorkflowNode list"
  connections :: "connection list"

record RealTimeData =
  reserveRatio :: "real option"
  ergPrice :: "real option"
  djedPrice :: "real option"
  transactions :: "real option"

datatype exec_status = success | skipped | failed

datatype run_status = completed | run_failed

record 'o node_execution =
  nodeId :: string
  nodeName :: string
  status :: exec_status
  exec_output :: "'o option"
  error :: "string option"

record 'o ExecutionLogEntry =
  workflowId :: string
  workflowName :: string
  nodeExecutions :: "'o node_execution list"
  run_status :: run_status

text \<open>
  The two arrays that \<open>executeNode\<close> mutates: the execution records and the set of
  executed node ids.
\<close>

record 'o exec_state =
  executions :: "'o node_execution list"
  executedNodes :: "string set"

text \<open>
  The table \<open>APPLET_DEFINITIONS\<close> (of another module; only the name of a definition is
  read) and \<open>generateOutput\<close>, whose result draws on \<open>Math.random\<close> and on number
  formatting: both are parameters. The first argument of \<open>generateOutput\<close> counts the records
  written so far, so that each call may draw afresh.
\<close>

record 'o applet_env =
  APPLET_DEFINITIONS :: "string \<Rightarrow> string"
  generateOutput :: "nat \<Rightarrow> string \<Rightarrow> RealTimeData \<Rightarrow> 'o"

text \<open>\<open>v || d\<close> for an optional number.\<close>

definition or_default :: "real option \<Rightarrow> real \<Rightarrow> real" where
  "or_default v d = (case v of None \<Rightarrow> d | Some x \<Rightarrow> if x = 0 then d else x)"

text \<open>
  The guard \<open>!dsi || !price\<close> holds when a value is undefined or zero; past it, both
  values are present.
\<close>

definition evaluateCondition :: "condition \<Rightarrow> RealTimeData \<Rightarrow> bool" where
  "evaluateCondition c realTimeData =
     (case (reserveRatio realTimeData, djedPrice realTimeData) of
        (Some dsi, Some price) \<Rightarrow>
          if dsi = 0 \<or> price = 0 then False
          else (case cond_type c of
                  dsi_below \<Rightarrow> dsi < or_default (cond_value c) 400
                | dsi_above \<Rightarrow> dsi > or_default (cond_value c) 500
                | price_below \<Rightarrow> price < or_default (cond_value c) 0.95
                | price_above \<Rightarrow> price > or_default (cond_value c) 1.05
                | always \<Rightarrow> True)
      | _ \<Rightarrow> False)"

definition shouldExecute :: "WorkflowNode \<Rightarrow> RealTimeData \<Rightarrow> bool" where
  "shouldExecute node realTimeData =
     (case node_condition node of
        None \<Rightarrow> True
      | Some c \<Rightarrow> if cond_type c \<noteq> always then evaluateCondition c realTimeData else True)"

definition connectedNodes :: "Workflow \<Rightarrow> WorkflowNode \<Rightarrow> WorkflowNode list" where
  "connectedNodes workflow node =
     List.map_filter (\<lambda>c. find (\<lambda>n. node_id n = conn_to c) (nodes workflow))
       (filter (\<lambda>c. conn_from c = node_id node) (connections workflow))"

text \<open>The record that \<open>executeNode\<close> pushes, and the id it adds to the set.\<close>

definition record_node ::
  "'o applet_env \<Rightarrow> RealTimeData \<Rightarrow> WorkflowNode \<Rightarrow> 'o exec_state \<Rightarrow> 'o exec_state" where
  "record_node env realTimeData node s =
     (let should = shouldExecute node realTimeData;
          out = (if should
                 then Some (generateOutput env (length (executions s)) (node_type node)
                              realTimeData)
                 else None);
          execution = \<lparr>nodeId = node_id node,
                       nodeName = APPLET_DEFINITIONS env (node_type node),
                       status = (if should then success else skipped),
                       exec_output = out, error = None\<rparr>
      in s\<lparr>executions := executions s @ [execution],
           executedNodes := insert (node_id node) (executedNodes s)\<rparr>)"

text \<open>
  \<open>executeNode\<close>, and \<open>executeEach\<close> for the loop \<open>for (const n of ns) await executeNode(n, ...)\<close>
  that both \<open>executeNode\<close> and \<open>executeWorkflow\<close> run. Clock readings, the simulated delay
  and the console are left out.
\<close>

function executeNode ::
    "'o applet_env \<Rightarrow> RealTimeData \<Rightarrow> Workflow \<Rightarrow> WorkflowNode \<Rightarrow> 'o exec_state \<Rightarrow> 'o exec_state"
  and executeEach ::
    "'o applet_env \<Rightarrow> RealTimeData \<Rightarrow> Workflow \<Rightarrow> WorkflowNode list \<Rightarrow> 'o exec_state \<Rightarrow> 'o exec_state"
  where
  "executeNode env realTimeData workflow node s =
     (if node_id node \<in> executedNodes s then s
      else if shouldExecute node realTimeData
        then executeEach env realTimeData workflow (connectedNodes workflow node)
               (record_node env realTimeData node s)
        else record_node env realTimeData node s)"
| "executeEach env realTimeData workflow [] s = s"
| "executeEach env realTimeData workflow (connectedNode # rest) s =
     executeEach env realTimeData workflow rest
       (executeNode env realTimeData workflow connectedNode s)"
  by pat_completeness auto


text \<open>The record of the policy gate.\<close>

definition blockedExecution :: "'o node_execution" where
  "blockedExecution =
     \<lparr>nodeId = ''POLICY_ENFORCEMENT'',
      nodeName = ''[SENTINEL_POLICY]'',
      status = failed,
      exec_output = None,
      error = Some ''[BLOCKED] Execution halted by Sentinel Policy: CRITICAL STATE. Workflow cannot execute while protocol security is compromised.''\<rparr>"

text \<open>Nodes without an incoming connection; the first node if there is none.\<close>

definition entryNodes :: "Workflow \<Rightarrow> WorkflowNode list" where
  "entryNodes workflow =
     (let incomingConnections = set (map conn_to (connections workflow));
          entry = filter (\<lambda>n. node_id n \<notin> incomingConnections) (nodes workflow)
      in case (entry, nodes workflow) of
           ([], first # _) \<Rightarrow> [first]
         | _ \<Rightarrow> entry)"

text \<open>
  \<open>executeWorkflow\<close>; \<open>realTimeData\<close> is what \<open>fetchRealTimeData\<close> returned for the run. The
  second argument is optional in the source, and only its being CRITICAL is tested. The
  log's id, timestamp and duration are clock readings and are left out.
\<close>

definition executeWorkflow ::
  "'o applet_env \<Rightarrow> RealTimeData \<Rightarrow> Workflow \<Rightarrow> protocol_status option \<Rightarrow> 'o ExecutionLogEntry"
  where
  "executeWorkflow env realTimeData workflow protocolStatus =
     (if protocolStatus = Some CRITICAL
      then \<lparr>workflowId = wf_id workflow, workflowName = wf_name workflow,
            nodeExecutions = [blockedExecution], run_status = run_failed\<rparr>
      else
        (let s = executeEach env realTimeData workflow (entryNodes workflow)
                   \<lparr>executions = [], executedNodes = {}\<rparr>
         in \<lparr>workflowId = wf_id workflow, workflowName = wf_name workflow,
              nodeExecutions = executions s,
              run_status = (if \<exists>n \<in> set (executions s). status n = failed
                            then run_failed else completed)\<rparr>))"

text \<open>
  The measure of the recursion: the ids of the workflow's nodes and of the nodes at hand
  that are not executed yet.
\<close>

definition unvisited :: "Workflow \<Rightarrow> WorkflowNode list \<Rightarrow> 'o exec_state \<Rightarrow> nat" where
  "unvisited workflow ns s =
     card ((node_id ` set (nodes workflow) \<union> node_id ` set ns) - executedNodes s)"

text \<open>
  Two facts about a state of the traversal, used in the proofs: every record belongs to
  an executed id and no id is recorded twice; and an id belongs to a node that was run,
  whose connected nodes are executed in \<open>s'\<close> if its condition held.
\<close>

definition records_ok :: "'o exec_state \<Rightarrow> bool" where
  "records_ok s = (distinct (map nodeId (executions s)) \<and>
                   set (map nodeId (executions s)) = executedNodes s)"

definition ran ::
  "RealTimeData \<Rightarrow> Workflow \<Rightarrow> WorkflowNode list \<Rightarrow> 'o exec_state \<Rightarrow> string \<Rightarrow> bool" where
  "ran d w ns s' x =
     (\<exists>m. node_id m = x \<and> (m \<in> set ns \<or> m \<in> set (nodes w)) \<and>
          (shouldExecute m d \<longrightarrow>
             (\<forall>k \<in> set (connectedNodes w m). node_id k \<in> executedNodes s')))"

text \<open>
  The diamond: four nodes with the ids A, B, C and D, in any order, and the connections
  A to B, A to C, B to D and C to D, in any order.
\<close>

definition diamond :: "Workflow \<Rightarrow> bool" where
  "diamond w =
     (distinct (map node_id (nodes w)) \<and>
      set (map node_id (nodes w)) = {''A'', ''B'', ''C'', ''D''} \<and>
      set (connections w) =
        {\<lparr>conn_from = ''A'', conn_to = ''B''\<rparr>, \<lparr>conn_from = ''A'', conn_to = ''C''\<rparr>,
         \<lparr>conn_from = ''B'', conn_to = ''D''\<rparr>, \<lparr>conn_from = ''C'', conn_to = ''D''\<rparr>})"

subsection \<open>Sample inputs\<close>

definition sample_env :: "nat applet_env" where
  "sample_env = \<lparr>APPLET_DEFINITIONS = (\<lambda>t. t), generateOutput = (\<lambda>k t d. k)\<rparr>"

definition sample_data :: RealTimeData where
  "sample_data = \<lparr>reserveRatio = Some 525.9, ergPrice = Some 1.45, djedPrice = Some 1,
     transactions = Some 12\<rparr>"

definition no_metrics :: RealTimeData where
  "no_metrics = \<lparr>reserveRatio = None, ergPrice = Some 1.45, djedPrice = None,
     transactions = None\<rparr>"

definition ratio_condition :: condition where
  "ratio_condition = \<lparr>cond_type = dsi_above, cond_value = Some 400\<rparr>"

definition gated_node :: WorkflowNode where
  "gated_node = \<lparr>node_id = ''C'', node_type = ''djed_sentinel'', node_condition = Some ratio_condition\<rparr>"

definition diamond_workflow :: Workflow where
  "diamond_workflow =
     \<lparr>wf_id = ''wf_1'', wf_name = ''diamond'',
      nodes = [\<lparr>node_id = ''A'', node_type = ''djed_monitor'', node_condition = None\<rparr>,
               \<lparr>node_id = ''B'', node_type = ''djed_sim'',
                node_condition = Some \<lparr>cond_type = always, cond_value = None\<rparr>\<rparr>,
               gated_node,
               \<lparr>node_id = ''D'', node_type = ''djed_ledger'', node_condition = None\<rparr>],
      connections = [\<lparr>conn_from = ''A'', conn_to = ''B''\<rparr>, \<lparr>conn_from = ''A'', conn_to = ''C''\<rparr>,
                     \<lparr>conn_from = ''B'', conn_to = ''D''\<rparr>, \<lparr>conn_from = ''C'', conn_to = ''D''\<rparr>]\<rparr>"

definition fresh_state :: "nat exec_state" where
  "fresh_state = \<lparr>executions = [], executedNodes = {}\<rparr>"

section \<open>Data hook: \<open>fetchWithRetry\<close>\<close>

text \<open>
  An error caught by the loop: one thrown by \<open>fetch\<close> or by \<open>response.json()\<close>, with its
  message, or the \<open>Error\<close> that the loop throws itself on a response that is not ok
  (\<open>HTTP status: statusText\<close>).
\<close>

datatype js_error = Thrown string | HttpError nat string

record 'a response =
  resp_ok :: bool
  resp_status :: nat
  resp_statusText :: string
  resp_json :: "js_error + 'a"

text \<open>What the function does to the outside, in order: calls of \<open>fetch\<close> and timed waits (ms).\<close>

datatype event = Fetch string | Wait int

text \<open>The body of the \<open>try\<close> block, given what \<open>fetch\<close> did.\<close>

definition attemptFetch :: "js_error + 'a response \<Rightarrow> js_error + 'a" where
  "attemptFetch r =
     (case r of
        Inl e \<Rightarrow> Inl e
      | Inr response \<Rightarrow>
          if \<not> resp_ok response
          then Inl (HttpError (resp_status response) (resp_statusText response))
          else resp_json response)"

text \<open>
  The loop. \<open>net url k\<close> is what the network answers to attempt number \<open>k\<close>; the result is
  the trace of events and either the value returned or the error thrown.
\<close>

function fetchAttempts ::
  "(string \<Rightarrow> nat \<Rightarrow> js_error + 'a response) \<Rightarrow> string \<Rightarrow> int \<Rightarrow> int \<Rightarrow> int \<Rightarrow>
   js_error option \<Rightarrow> event list \<Rightarrow> event list \<times> (js_error + 'a)" where
  "fetchAttempts net url maxRetries initialDelay attempt lastError trace =
     (if attempt < maxRetries then
        (case attemptFetch (net url (nat attempt)) of
           Inr v \<Rightarrow> (trace @ [Fetch url], Inr v)
         | Inl e \<Rightarrow>
             fetchAttempts net url maxRetries initialDelay (attempt + 1) (Some e)
               (if attempt < maxRetries - 1
                then trace @ [Fetch url, Wait (initialDelay * 2 ^ nat attempt)]
                else trace @ [Fetch url]))
      else (trace,
            Inl (case lastError of
                   Some e \<Rightarrow> e
                 | None \<Rightarrow> Thrown ''Failed to fetch data after retries'')))"
  by pat_completeness auto
termination
  by (relation "measure (\<lambda>(net, url, maxRetries, initialDelay, attempt, lastError, trace).
        nat (maxRetries - attempt))") auto

declare fetchAttempts.simps [simp del]

text \<open>The two optional parameters default to 3 and 1000.\<close>

definition fetchWithRetry ::
  "(string \<Rightarrow> nat \<Rightarrow> js_error + 'a response) \<Rightarrow> string \<Rightarrow> int option \<Rightarrow> int option \<Rightarrow>
   event list \<times> (js_error + 'a)" where
  "fetchWithRetry net url maxRetries initialDelay =
     fetchAttempts net url (case maxRetries of None \<Rightarrow> 3 | Some m \<Rightarrow> m)
       (case initialDelay of None \<Rightarrow> 1000 | Some d \<Rightarrow> d) 0 None []"

text \<open>The number of fetch attempts in a trace, and its waits in order.\<close>

fun fetches :: "event list \<Rightarrow> nat" where
  "fetches [] = 0"
| "fetches (Fetch u # es) = Suc (fetches es)"
| "fetches (Wait d # es) = fetches es"

fun waits :: "event list \<Rightarrow> int list" where
  "waits [] = []"
| "waits (Fetch u # es) = waits es"
| "waits (Wait d # es) = d # waits es"

text \<open>A network on which every call of \<open>fetch\<close> throws.\<close>

definition always_down :: "string \<Rightarrow> nat \<Rightarrow> js_error + nat response" where
  "always_down url k = Inl (Thrown ''network down'')"

text \<open>A network whose first call throws and whose later calls answer with a status 500 + k.\<close>

definition failing_thrice :: "string \<Rightarrow> nat \<Rightarrow> js_error + nat response" where
  "failing_thrice url k =
     (if k = 0 then Inl (Thrown ''Failed to fetch'')
      else Inr \<lparr>resp_ok = False, resp_status = 500 + k, resp_statusText = ''Not Implemented'',
                resp_json = Inl (Thrown ''Unexpected token'')\<rparr>)"

section \<open>Termination of the traversal\<close>

lemma find_Some_mem: "find P xs = Some x \<Longrightarrow> x \<in> set xs \<and> P x"
  by (induction xs) (auto split: if_splits)

lemma map_filter_mem:
  "y \<in> set (List.map_filter f xs) \<Longrightarrow> \<exists>x \<in> set xs. f x = Some y"
  by (induction xs) (auto split: option.splits)

lemma connectedNodes_subset: "set (connectedNodes workflow node) \<subseteq> set (nodes workflow)"
  unfolding connectedNodes_def by (auto dest!: map_filter_mem dest: find_Some_mem)

lemma executedNodes_record_node [simp]:
  "executedNodes (record_node env realTimeData node s) = insert (node_id node) (executedNodes s)"
  by (simp add: record_node_def Let_def)

text \<open>Where the recursion is defined, the set of executed ids only grows.\<close>

lemma executedNodes_grow_partial:
  "executeNode_executeEach_dom (Inl (env, realTimeData, workflow, node, s)) \<Longrightarrow>
     executedNodes s \<subseteq> executedNodes (executeNode env realTimeData workflow node s)"
  "executeNode_executeEach_dom (Inr (env, realTimeData, workflow, ns, s)) \<Longrightarrow>
     executedNodes s \<subseteq> executedNodes (executeEach env realTimeData workflow ns s)"
proof (induct rule: executeNode_executeEach.pinduct)
  case (1 env realTimeData workflow node s)
  then show ?case by (auto simp: executeNode.psimps)
next
  case (2 env realTimeData workflow s)
  then show ?case by (simp add: executeEach.psimps)
next
  case (3 env realTimeData workflow connectedNode rest s)
  then show ?case by (auto simp: executeEach.psimps)
qed

lemma unvisited_mono:
  "node_id ` set ns \<subseteq> node_id ` set (nodes workflow) \<union> node_id ` set ms \<Longrightarrow>
   executedNodes s \<subseteq> executedNodes t \<Longrightarrow>
   unvisited workflow ns t \<le> unvisited workflow ms s"
  unfolding unvisited_def by (rule card_mono) auto

lemma unvisited_less:
  assumes "node_id node \<notin> executedNodes s"
  shows "unvisited workflow (connectedNodes workflow node) (record_node env realTimeData node s)
           < unvisited workflow [node] s"
  unfolding unvisited_def
proof (rule psubset_card_mono)
  show "finite (node_id ` set (nodes workflow) \<union> node_id ` set [node] - executedNodes s)"
    by simp
  show "node_id ` set (nodes workflow) \<union> node_id ` set (connectedNodes workflow node)
          - executedNodes (record_node env realTimeData node s)
        \<subset> node_id ` set (nodes workflow) \<union> node_id ` set [node] - executedNodes s"
    using assms connectedNodes_subset [of workflow node] by auto
qed

termination executeNode
proof (relation "inv_image (less_than <*lex*> less_than)
    (\<lambda>x. case x of
       Inl (env, realTimeData, workflow, node, s) \<Rightarrow> (unvisited workflow [node] s, 0)
     | Inr (env, realTimeData, workflow, ns, s) \<Rightarrow> (unvisited workflow ns s, Suc (length ns)))",
    goal_cases)
  case 1
  show ?case by (intro wf_inv_image wf_lex_prod wf_less_than)
next
  case (2 node s realTimeData env workflow)
  then show ?case by (simp add: unvisited_less)
next
  case (3 env realTimeData workflow connectedNode rest s)
  have "unvisited workflow [connectedNode] s \<le> unvisited workflow (connectedNode # rest) s"
    by (rule unvisited_mono) auto
  then show ?case by auto
next
  case (4 env realTimeData workflow connectedNode rest s)
  have "unvisited workflow rest (executeNode env realTimeData workflow connectedNode s)
          \<le> unvisited workflow (connectedNode # rest) s"
    using executedNodes_grow_partial(1) [OF 4] by (intro unvisited_mono) auto
  then show ?case by auto
qed

declare executeNode.simps [simp del]

section \<open>Theorems\<close>

lemma jmax_zero_not_negative: "\<not> jlt (jmax (Fin 0) x) (Fin 0)"
  by (cases x) simp_all

text \<open>
  C2. For the status field of the \<open>djed/state\<close> response and every ratio \<open>r\<close>: the status
  is OPTIMAL exactly when \<open>r >= 400\<close>, WARNING exactly when \<open>r >= 200\<close> and \<open>r < 400\<close>, and
  CRITICAL exactly when \<open>r < 200\<close> or \<open>r\<close> is NaN. On the real numbers these are the bands
  \<open>r \<ge> 400\<close>, \<open>200 \<le> r < 400\<close> and \<open>r < 200\<close>.
\<close>

theorem classifyStatus_bands:
  "(classifyStatus r = OPTIMAL) = jge r (Fin 400) \<and>
   (classifyStatus r = WARNING) = (jge r (Fin 200) \<and> jlt r (Fin 400)) \<and>
   (classifyStatus r = CRITICAL) = (jlt r (Fin 200) \<or> r = NaN) \<and>
   (classifyStatus (Fin x) = OPTIMAL) = (x \<ge> 400) \<and>
   (classifyStatus (Fin x) = WARNING) = (200 \<le> x \<and> x < 400) \<and>
   (classifyStatus (Fin x) = CRITICAL) = (x < 200)"
  by (cases r) (simp_all add: classifyStatus_def)

text \<open>A ratio that is NaN is answered with CRITICAL, and NaN is not below 200.\<close>

theorem nan_ratio_is_critical:
  "classifyStatus NaN = CRITICAL \<and> \<not> jlt NaN (Fin 200)"
  by (simp add: classifyStatus_def)

text \<open>
  C3. For every input, also a non-finite one, \<open>calculateNetProfit\<close> returns
  \<open>Math.max(0, grossProfit - costs)\<close> with the gross profit and the costs of the
  specification, and the value returned is never below zero.
\<close>

theorem calculateNetProfit_floor:
  "calculateNetProfit env dex protocol spr tradeAmount =
     jmax (Fin 0)
       (jsub (spec_grossProfit (trade_amount env tradeAmount) dex spr)
             (spec_costs env (trade_amount env tradeAmount))) \<and>
   \<not> jlt (calculateNetProfit env dex protocol spr tradeAmount) (Fin 0)"
  by (simp add: calculateNetProfit_def spec_grossProfit_def spec_costs_def
      trade_amount_def Let_def jmax_zero_not_negative)

subsection \<open>Workflow engine\<close>

lemma executedNodes_grow:
  "executedNodes s \<subseteq> executedNodes (executeNode env d w n s)"
  "executedNodes s \<subseteq> executedNodes (executeEach env d w ns s)"
  by (induction env d w n s and env d w ns s rule: executeNode_executeEach.induct)
     (auto simp: executeNode.simps)

lemma executeNode_marks: "node_id n \<in> executedNodes (executeNode env d w n s)"
  using executedNodes_grow(2) [of "record_node env d n s" env d w "connectedNodes w n"]
  by (auto simp: executeNode.simps)

lemma executeEach_marks: "m \<in> set ns \<Longrightarrow> node_id m \<in> executedNodes (executeEach env d w ns s)"
proof (induction ns arbitrary: s)
  case Nil
  then show ?case by simp
next
  case (Cons c rest)
  show ?case
  proof (cases "m = c")
    case True
    then show ?thesis
      using executeNode_marks [of c env d w s]
        executedNodes_grow(2) [of "executeNode env d w c s" env d w rest]
      by auto
  next
    case False
    then show ?thesis using Cons by simp
  qed
qed

lemma records_ok_record_node:
  "records_ok s \<Longrightarrow> node_id n \<notin> executedNodes s \<Longrightarrow> records_ok (record_node env d n s)"
  by (auto simp: records_ok_def record_node_def Let_def)

lemma records_ok_preserved:
  "records_ok s \<Longrightarrow> records_ok (executeNode env d w n s)"
  "records_ok s \<Longrightarrow> records_ok (executeEach env d w ns s)"
proof (induction env d w n s and env d w ns s rule: executeNode_executeEach.induct)
  case (1 env d w n s)
  then show ?case
    by (auto simp: executeNode.simps records_ok_record_node)
next
  case (2 env d w s)
  then show ?case by simp
next
  case (3 env d w c rest s)
  then show ?case by simp
qed

lemma ran_mono:
  "ran d w ns s1 x \<Longrightarrow> set ns \<subseteq> set ms \<union> set (nodes w) \<Longrightarrow>
   executedNodes s1 \<subseteq> executedNodes s2 \<Longrightarrow> ran d w ms s2 x"
  unfolding ran_def by blast

lemma new_ids_ran:
  "\<forall>x \<in> executedNodes (executeNode env d w n s) - executedNodes s.
      ran d w [n] (executeNode env d w n s) x"
  "\<forall>x \<in> executedNodes (executeEach env d w ns s) - executedNodes s.
      ran d w ns (executeEach env d w ns s) x"
proof (induction env d w n s and env d w ns s rule: executeNode_executeEach.induct)
  case (1 env d w n s)
  show ?case
  proof (cases "node_id n \<in> executedNodes s")
    case True
    then show ?thesis by (simp add: executeNode.simps)
  next
    case unvisited: False
    show ?thesis
    proof (cases "shouldExecute n d")
      case True
      let ?s1 = "record_node env d n s"
      let ?s' = "executeEach env d w (connectedNodes w n) ?s1"
      have res: "executeNode env d w n s = ?s'"
        using unvisited True by (simp add: executeNode.simps)
      have self: "ran d w [n] ?s' (node_id n)"
        unfolding ran_def using executeEach_marks [of _ "connectedNodes w n" env d w ?s1]
        by auto
      have others: "\<forall>x \<in> executedNodes ?s' - executedNodes ?s1. ran d w [n] ?s' x"
      proof
        fix x assume "x \<in> executedNodes ?s' - executedNodes ?s1"
        then have "ran d w (connectedNodes w n) ?s' x"
          using 1 [OF unvisited True] by blast
        then show "ran d w [n] ?s' x"
          using connectedNodes_subset [of w n] by (elim ran_mono) auto
      qed
      show ?thesis
        unfolding res using self others by auto
    next
      case False
      then have "executeNode env d w n s = record_node env d n s"
        using unvisited by (simp add: executeNode.simps)
      then show ?thesis
        using False by (auto simp: ran_def)
    qed
  qed
next
  case (2 env d w s)
  then show ?case by simp
next
  case (3 env d w c rest s)
  let ?s2 = "executeNode env d w c s"
  let ?s' = "executeEach env d w rest ?s2"
  have g: "executedNodes ?s2 \<subseteq> executedNodes ?s'"
    by (rule executedNodes_grow(2))
  show ?case
  proof
    fix x assume x: "x \<in> executedNodes (executeEach env d w (c # rest) s) - executedNodes s"
    show "ran d w (c # rest) (executeEach env d w (c # rest) s) x"
    proof (cases "x \<in> executedNodes ?s2")
      case True
      then have "ran d w [c] ?s2 x" using x 3(1) by auto
      then have "ran d w (c # rest) ?s' x"
        using g by (elim ran_mono) auto
      then show ?thesis by simp
    next
      case False
      then have "ran d w rest ?s' x" using x 3(2) by auto
      then have "ran d w (c # rest) ?s' x"
        by (elim ran_mono) auto
      then show ?thesis by simp
    qed
  qed
qed

lemma find_distinct_key:
  "distinct (map f xs) \<Longrightarrow> x \<in> set xs \<Longrightarrow> find (\<lambda>y. f y = f x) xs = Some x"
  by (induction xs) (auto simp: rev_image_eqI)

lemma connectedNodes_member:
  assumes "c \<in> set (connections w)" and "conn_from c = node_id n"
    and "find (\<lambda>m. node_id m = conn_to c) (nodes w) = Some k"
  shows "k \<in> set (connectedNodes w n)"
  using assms unfolding connectedNodes_def List.map_filter_def by force

lemma count_one:
  "distinct (map f xs) \<Longrightarrow> y \<in> f ` set xs \<Longrightarrow> length (filter (\<lambda>e. f e = y) xs) = 1"
proof (induction xs)
  case Nil
  then show ?case by simp
next
  case (Cons x xs)
  show ?case
  proof (cases "f x = y")
    case True
    then have "filter (\<lambda>e. f e = y) xs = []"
      using Cons.prems(1) by (auto simp: filter_empty_conv image_iff)
    then show ?thesis using True by simp
  next
    case False
    then show ?thesis using Cons by auto
  qed
qed

lemma entryNodes_eq:
  "entryNodes w =
     (if filter (\<lambda>n. node_id n \<notin> conn_to ` set (connections w)) (nodes w) = []
      then take 1 (nodes w)
      else filter (\<lambda>n. node_id n \<notin> conn_to ` set (connections w)) (nodes w))"
proof (cases "filter (\<lambda>n. node_id n \<notin> conn_to ` set (connections w)) (nodes w)")
  case Nil
  then show ?thesis
    by (cases "nodes w") (simp_all add: entryNodes_def)
next
  case (Cons e es)
  then show ?thesis
    by (simp add: entryNodes_def)
qed

lemma entryNodes_subset: "set (entryNodes w) \<subseteq> set (nodes w)"
  unfolding entryNodes_eq using set_take_subset [of 1 "nodes w"] by auto

lemma entryNodes_member:
  assumes "n \<in> set (nodes w)" and "node_id n \<notin> conn_to ` set (connections w)"
  shows "n \<in> set (entryNodes w)"
proof -
  have "n \<in> set (filter (\<lambda>n. node_id n \<notin> conn_to ` set (connections w)) (nodes w))"
    using assms by simp
  then show ?thesis
    unfolding entryNodes_eq by (auto simp del: set_filter)
qed

text \<open>From an executed node whose condition holds, along a connection.\<close>

lemma step_along_connection:
  fixes s0 :: "'o exec_state"
  assumes fin: "s' = executeEach env d w (entryNodes w) s0"
    and dist: "distinct (map node_id (nodes w))"
    and n: "n \<in> set (nodes w)" and k: "k \<in> set (nodes w)"
    and c: "c \<in> set (connections w)" "conn_from c = node_id n" "conn_to c = node_id k"
    and should: "shouldExecute n d"
    and new: "node_id n \<in> executedNodes s'" "node_id n \<notin> executedNodes s0"
  shows "node_id k \<in> executedNodes s'"
proof -
  have "ran d w (entryNodes w) s' (node_id n)"
    using new_ids_ran(2) [of env d w "entryNodes w" s0] new fin by auto
  then obtain m where m: "node_id m = node_id n" "m \<in> set (nodes w)"
    and cl: "shouldExecute m d \<longrightarrow> (\<forall>j \<in> set (connectedNodes w m). node_id j \<in> executedNodes s')"
    unfolding ran_def using entryNodes_subset [of w] by blast
  have "m = n"
    using m n dist by (auto simp: distinct_map inj_on_def)
  moreover have "find (\<lambda>m. node_id m = conn_to c) (nodes w) = Some k"
    using find_distinct_key [OF dist k] c(3) by simp
  then have "k \<in> set (connectedNodes w n)"
    using c by (intro connectedNodes_member)
  ultimately show ?thesis using cl should by blast
qed

lemma executeWorkflow_distinct:
  "distinct (map nodeId (nodeExecutions (executeWorkflow env d w ps)))"
proof -
  have "records_ok (executeEach env d w (entryNodes w) \<lparr>executions = [], executedNodes = {}\<rparr>)"
    by (rule records_ok_preserved(2)) (simp add: records_ok_def)
  then show ?thesis
    by (simp add: executeWorkflow_def Let_def records_ok_def)
qed

lemma status_record_node:
  "e \<in> set (executions (record_node env d n s)) \<Longrightarrow>
   e \<in> set (executions s) \<or> status e = success \<or> status e = skipped"
  by (auto simp: record_node_def Let_def split: if_splits)

lemma executions_not_failed:
  "(\<forall>e \<in> set (executions s). status e \<noteq> failed) \<Longrightarrow>
     (\<forall>e \<in> set (executions (executeNode env d w n s)). status e \<noteq> failed)"
  "(\<forall>e \<in> set (executions s). status e \<noteq> failed) \<Longrightarrow>
     (\<forall>e \<in> set (executions (executeEach env d w ns s)). status e \<noteq> failed)"
proof (induction env d w n s and env d w ns s rule: executeNode_executeEach.induct)
  case (1 env d w n s)
  have rec: "\<forall>e \<in> set (executions (record_node env d n s)). status e \<noteq> failed"
    using 1(2) by (auto dest: status_record_node)
  show ?case
    using 1 rec by (simp add: executeNode.simps)
next
  case (2 env d w s)
  then show ?case by simp
next
  case (3 env d w c rest s)
  then show ?case by simp
qed

text \<open>
  C1. When the protocol status is CRITICAL, \<open>executeWorkflow\<close> returns, for every workflow
  (with or without nodes), a log whose only execution record is the one of the policy gate:
  its status is \<open>failed\<close>, it names \<open>POLICY_ENFORCEMENT\<close> / \<open>[SENTINEL_POLICY]\<close>, no
  record of a workflow node is in the log, and the status of the run is \<open>failed\<close>.
\<close>

theorem policy_gate_blocks:
  "nodeExecutions (executeWorkflow env d w (Some CRITICAL)) = [blockedExecution] \<and>
   length (nodeExecutions (executeWorkflow env d w (Some CRITICAL))) = 1 \<and>
   status (hd (nodeExecutions (executeWorkflow env d w (Some CRITICAL)))) = failed \<and>
   nodeId (hd (nodeExecutions (executeWorkflow env d w (Some CRITICAL)))) = ''POLICY_ENFORCEMENT'' \<and>
   nodeName (hd (nodeExecutions (executeWorkflow env d w (Some CRITICAL)))) = ''[SENTINEL_POLICY]'' \<and>
   run_status (executeWorkflow env d w (Some CRITICAL)) = run_failed"
  by (simp add: executeWorkflow_def blockedExecution_def)

text \<open>
  C10. When the protocol status is not CRITICAL, every execution record of the log has
  status \<open>success\<close> or \<open>skipped\<close> and the status of the run is \<open>completed\<close>; the run
  fails exactly when the protocol status is CRITICAL.
\<close>

theorem only_gate_fails:
  "(protocolStatus \<noteq> Some CRITICAL \<longrightarrow>
      (\<forall>e \<in> set (nodeExecutions (executeWorkflow env d w protocolStatus)).
          status e = success \<or> status e = skipped) \<and>
      run_status (executeWorkflow env d w protocolStatus) = completed) \<and>
   (run_status (executeWorkflow env d w protocolStatus) = run_failed) =
     (protocolStatus = Some CRITICAL)"
proof -
  let ?s = "executeEach env d w (entryNodes w) \<lparr>executions = [], executedNodes = {}\<rparr>"
  have nf: "\<forall>e \<in> set (executions ?s). status e \<noteq> failed"
    by (rule executions_not_failed(2)) simp
  then have ok: "\<forall>e \<in> set (executions ?s). status e = success \<or> status e = skipped"
    by (metis exec_status.exhaust)
  show ?thesis
    using nf ok by (auto simp: executeWorkflow_def Let_def)
qed

lemma sample_run2:
  "map status (nodeExecutions (executeWorkflow sample_env no_metrics diamond_workflow (Some OPTIMAL)))
     = [success, success, success, skipped]"
  by code_simp

theorem only_gate_fails_witness:
  "Some OPTIMAL \<noteq> Some CRITICAL \<and>
   map status (nodeExecutions (executeWorkflow sample_env no_metrics diamond_workflow (Some OPTIMAL)))
     = [success, success, success, skipped] \<and>
   run_status (executeWorkflow sample_env no_metrics diamond_workflow (Some OPTIMAL)) = completed"
  using only_gate_fails [of "Some OPTIMAL" sample_env no_metrics diamond_workflow] sample_run2
  by simp

text \<open>
  C8. For a node whose condition has type \<open>dsi_below\<close>, \<open>dsi_above\<close>, \<open>price_below\<close> or
  \<open>price_above\<close>: if the snapshot lacks the reserve ratio or the protocol price, the
  condition evaluates to false, and the node, if not executed before, is recorded as
  \<open>skipped\<close> with no output and nothing else changes.
\<close>

theorem missing_metrics_skip:
  assumes "node_condition node = Some c"
    and "cond_type c \<in> {dsi_below, dsi_above, price_below, price_above}"
    and "reserveRatio d = None \<or> djedPrice d = None"
  shows "\<not> evaluateCondition c d \<and>
         (node_id node \<notin> executedNodes s \<longrightarrow>
            executeNode env d w node s =
              s\<lparr>executions := executions s @
                   [\<lparr>nodeId = node_id node, nodeName = APPLET_DEFINITIONS env (node_type node),
                     status = skipped, exec_output = None, error = None\<rparr>],
                executedNodes := insert (node_id node) (executedNodes s)\<rparr>)"
proof -
  have ev: "\<not> evaluateCondition c d"
    using assms(3) by (auto simp: evaluateCondition_def split: option.splits)
  have "cond_type c \<noteq> always" using assms(2) by auto
  then have "\<not> shouldExecute node d"
    using ev assms(1) by (simp add: shouldExecute_def)
  then show ?thesis
    using ev by (simp add: executeNode.simps record_node_def Let_def)
qed

theorem missing_metrics_skip_witness:
  "node_condition gated_node = Some ratio_condition \<and> cond_type ratio_condition = dsi_above \<and>
   reserveRatio no_metrics = None \<and>
   \<not> evaluateCondition ratio_condition no_metrics \<and>
   node_id gated_node \<notin> executedNodes fresh_state \<and>
   executeNode sample_env no_metrics diamond_workflow gated_node fresh_state =
     \<lparr>executions = [\<lparr>nodeId = ''C'', nodeName = ''djed_sentinel'', status = skipped,
                      exec_output = None, error = None\<rparr>],
      executedNodes = {''C''}\<rparr>"
  using missing_metrics_skip [of gated_node ratio_condition no_metrics fresh_state sample_env diamond_workflow]
  by (simp add: gated_node_def ratio_condition_def no_metrics_def fresh_state_def sample_env_def)


lemma record_node_success:
  assumes "shouldExecute n d"
    and "\<forall>e \<in> set (executions s). status e = success \<and> exec_output e \<noteq> None"
  shows "\<forall>e \<in> set (executions (record_node env d n s)).
           status e = success \<and> exec_output e \<noteq> None"
  using assms by (auto simp: record_node_def Let_def)

lemma executions_all_success:
  "(\<forall>m \<in> set (nodes w). shouldExecute m d) \<Longrightarrow> shouldExecute n d \<Longrightarrow>
   (\<forall>e \<in> set (executions s). status e = success \<and> exec_output e \<noteq> None) \<Longrightarrow>
     (\<forall>e \<in> set (executions (executeNode env d w n s)).
        status e = success \<and> exec_output e \<noteq> None)"
  "(\<forall>m \<in> set (nodes w). shouldExecute m d) \<Longrightarrow> (\<forall>m \<in> set ns. shouldExecute m d) \<Longrightarrow>
   (\<forall>e \<in> set (executions s). status e = success \<and> exec_output e \<noteq> None) \<Longrightarrow>
     (\<forall>e \<in> set (executions (executeEach env d w ns s)).
        status e = success \<and> exec_output e \<noteq> None)"
proof (induction env d w n s and env d w ns s rule: executeNode_executeEach.induct)
  case (1 env d w n s)
  show ?case
  proof (cases "node_id n \<in> executedNodes s")
    case True
    then show ?thesis using 1(4) by (simp add: executeNode.simps)
  next
    case False
    have rec: "\<forall>e \<in> set (executions (record_node env d n s)).
                 status e = success \<and> exec_output e \<noteq> None"
      using 1(3,4) by (rule record_node_success)
    have conn: "\<forall>m \<in> set (connectedNodes w n). shouldExecute m d"
      using 1(2) connectedNodes_subset [of w n] by blast
    have "\<forall>e \<in> set (executions (executeEach env d w (connectedNodes w n)
                 (record_node env d n s))). status e = success \<and> exec_output e \<noteq> None"
      using 1(1) [OF False 1(3) 1(2) conn rec] .
    then show ?thesis
      using False 1(3) by (simp add: executeNode.simps)
  qed
next
  case (2 env d w s)
  then show ?case by simp
next
  case (3 env d w c rest s)
  have c: "shouldExecute c d" and rest: "\<forall>m \<in> set rest. shouldExecute m d"
    using 3(4) by simp_all
  have "\<forall>e \<in> set (executions (executeNode env d w c s)).
          status e = success \<and> exec_output e \<noteq> None"
    using 3(1) [OF 3(3) c 3(5)] .
  then show ?case
    using 3(2) [OF 3(3) rest] by simp
qed

text \<open>
  C7. No node id has two execution records in a log. On the diamond (A to B, A to C, B to
  D, C to D) a run that passes the policy gate and in which every node's condition holds
  executes D exactly once: the log has exactly one record for D, every record of the log
  is a \<open>success\<close> with an output, and the recorded ids are A, B, C and D.
\<close>

theorem node_executed_once:
  fixes env :: "'o applet_env"
  shows "distinct (map nodeId (nodeExecutions (executeWorkflow env d w protocolStatus))) \<and>
   (protocolStatus \<noteq> Some CRITICAL \<and> diamond w \<and> (\<forall>n \<in> set (nodes w). shouldExecute n d) \<longrightarrow>
      length (filter (\<lambda>e. nodeId e = ''D'')
        (nodeExecutions (executeWorkflow env d w protocolStatus))) = 1 \<and>
      (\<forall>e \<in> set (nodeExecutions (executeWorkflow env d w protocolStatus)).
         status e = success \<and> exec_output e \<noteq> None) \<and>
      set (map nodeId (nodeExecutions (executeWorkflow env d w protocolStatus))) =
        {''A'', ''B'', ''C'', ''D''})"
proof (intro conjI impI)
  show "distinct (map nodeId (nodeExecutions (executeWorkflow env d w protocolStatus)))"
    by (rule executeWorkflow_distinct)
next
  assume h: "protocolStatus \<noteq> Some CRITICAL \<and> diamond w \<and>
             (\<forall>n \<in> set (nodes w). shouldExecute n d)"
  let ?s0 = "\<lparr>executions = [], executedNodes = {}\<rparr> :: 'o exec_state"
  let ?s' = "executeEach env d w (entryNodes w) ?s0"
  have dist: "distinct (map node_id (nodes w))"
    and ids: "node_id ` set (nodes w) = {''A'', ''B'', ''C'', ''D''}"
    and conns: "set (connections w) =
        {\<lparr>conn_from = ''A'', conn_to = ''B''\<rparr>, \<lparr>conn_from = ''A'', conn_to = ''C''\<rparr>,
         \<lparr>conn_from = ''B'', conn_to = ''D''\<rparr>, \<lparr>conn_from = ''C'', conn_to = ''D''\<rparr>}"
    using h by (simp_all add: diamond_def)
  have all: "\<forall>n \<in> set (nodes w). shouldExecute n d"
    using h by simp
  have AB: "\<lparr>conn_from = ''A'', conn_to = ''B''\<rparr> \<in> set (connections w)"
    and AC: "\<lparr>conn_from = ''A'', conn_to = ''C''\<rparr> \<in> set (connections w)"
    and BD: "\<lparr>conn_from = ''B'', conn_to = ''D''\<rparr> \<in> set (connections w)"
    unfolding conns by simp_all
  have no_incoming: "''A'' \<notin> conn_to ` set (connections w)"
    unfolding conns by simp
  have "''A'' \<in> node_id ` set (nodes w)" "''B'' \<in> node_id ` set (nodes w)"
    "''C'' \<in> node_id ` set (nodes w)" "''D'' \<in> node_id ` set (nodes w)"
    unfolding ids by simp_all
  then obtain a b c dd where a: "a \<in> set (nodes w)" "node_id a = ''A''"
    and b: "b \<in> set (nodes w)" "node_id b = ''B''"
    and c: "c \<in> set (nodes w)" "node_id c = ''C''"
    and dd: "dd \<in> set (nodes w)" "node_id dd = ''D''"
    by (elim imageE) simp
  have should: "shouldExecute a d" "shouldExecute b d"
    using all a(1) b(1) by simp_all
  have log: "nodeExecutions (executeWorkflow env d w protocolStatus) = executions ?s'"
    using h by (simp add: executeWorkflow_def Let_def)
  have ok: "records_ok ?s'"
    by (rule records_ok_preserved(2)) (simp add: records_ok_def)
  have recorded: "set (map nodeId (executions ?s')) = executedNodes ?s'"
    and once: "distinct (map nodeId (executions ?s'))"
    using ok by (simp_all add: records_ok_def)
  have "a \<in> set (entryNodes w)"
    using a(1) no_incoming unfolding a(2) [symmetric] by (rule entryNodes_member)
  then have A: "node_id a \<in> executedNodes ?s'"
    by (rule executeEach_marks)
  have B: "node_id b \<in> executedNodes ?s'"
    using refl dist a(1) b(1) AB _ _ should(1) A
    by (rule step_along_connection) (simp_all add: a(2) b(2))
  have C: "node_id c \<in> executedNodes ?s'"
    using refl dist a(1) c(1) AC _ _ should(1) A
    by (rule step_along_connection) (simp_all add: a(2) c(2))
  have D: "node_id dd \<in> executedNodes ?s'"
    using refl dist b(1) dd(1) BD _ _ should(2) B
    by (rule step_along_connection) (simp_all add: b(2) dd(2))
  have upper: "executedNodes ?s' \<subseteq> node_id ` set (nodes w)"
  proof
    fix x assume "x \<in> executedNodes ?s'"
    then have "ran d w (entryNodes w) ?s' x"
      using new_ids_ran(2) [of env d w "entryNodes w" ?s0] by simp
    then show "x \<in> node_id ` set (nodes w)"
      unfolding ran_def using entryNodes_subset [of w] by blast
  qed
  have lower: "{''A'', ''B'', ''C'', ''D''} \<subseteq> executedNodes ?s'"
    using A B C D unfolding a(2) b(2) c(2) dd(2) by simp
  show "set (map nodeId (nodeExecutions (executeWorkflow env d w protocolStatus))) =
        {''A'', ''B'', ''C'', ''D''}"
    unfolding log recorded using upper lower unfolding ids by (rule subset_antisym)
  have "''D'' \<in> nodeId ` set (executions ?s')"
    using lower recorded by auto
  then show "length (filter (\<lambda>e. nodeId e = ''D'')
        (nodeExecutions (executeWorkflow env d w protocolStatus))) = 1"
    unfolding log using once by (intro count_one)
  have "\<forall>m \<in> set (entryNodes w). shouldExecute m d"
    using all entryNodes_subset [of w] by blast
  then show "\<forall>e \<in> set (nodeExecutions (executeWorkflow env d w protocolStatus)).
         status e = success \<and> exec_output e \<noteq> None"
    unfolding log using all by (intro executions_all_success(2)) simp_all
qed

lemma sample_all_hold: "\<forall>n \<in> set (nodes diamond_workflow). shouldExecute n sample_data"
  by (simp add: diamond_workflow_def gated_node_def ratio_condition_def shouldExecute_def
      evaluateCondition_def or_default_def sample_data_def)

lemma diamond_sample: "diamond diamond_workflow"
  by (simp add: diamond_def diamond_workflow_def gated_node_def)

lemma sample_d_record:
  "filter (\<lambda>e. nodeId e = ''D'')
     (nodeExecutions (executeWorkflow sample_env sample_data diamond_workflow (Some OPTIMAL))) =
   [\<lparr>nodeId = ''D'', nodeName = ''djed_ledger'', status = success, exec_output = Some 2,
     error = None\<rparr>]"
  by code_simp

lemma sample_run:
  "map nodeId (nodeExecutions (executeWorkflow sample_env sample_data diamond_workflow (Some OPTIMAL)))
     = [''A'', ''B'', ''D'', ''C'']"
  by code_simp

lemma sample_statuses:
  "map status (nodeExecutions (executeWorkflow sample_env sample_data diamond_workflow (Some OPTIMAL)))
     = [success, success, success, success]"
  by code_simp

theorem node_executed_once_witness:
  "Some OPTIMAL \<noteq> Some CRITICAL \<and> diamond diamond_workflow \<and>
   map (\<lambda>n. shouldExecute n sample_data) (nodes diamond_workflow) = [True, True, True, True] \<and>
   filter (\<lambda>e. nodeId e = ''D'')
     (nodeExecutions (executeWorkflow sample_env sample_data diamond_workflow (Some OPTIMAL))) =
     [\<lparr>nodeId = ''D'', nodeName = ''djed_ledger'', status = success, exec_output = Some 2,
       error = None\<rparr>] \<and>
   map status (nodeExecutions (executeWorkflow sample_env sample_data diamond_workflow (Some OPTIMAL)))
     = [success, success, success, success] \<and>
   map nodeId (nodeExecutions (executeWorkflow sample_env sample_data diamond_workflow (Some OPTIMAL)))
     = [''A'', ''B'', ''D'', ''C'']"
  using node_executed_once [of sample_env sample_data diamond_workflow "Some OPTIMAL"]
    sample_all_hold diamond_sample sample_d_record sample_statuses sample_run
  by (simp add: diamond_workflow_def)

subsection \<open>Opportunity history\<close>

lemma markOld_cases:
  "markOld now opp =
     (if opp_status opp = detected \<and> now - opp_timestamp opp > 300000
      then opp\<lparr>opp_status := expired\<rparr> else opp)"
  by (simp add: markOld_def)

lemma not_significant_nonempty: "\<not> isSignificantChange prev sp now \<Longrightarrow> prev \<noteq> []"
  by (auto simp: isSignificantChange_def)

lemma length_historyEffect:
  "length prev \<le> 20 \<Longrightarrow> length (historyEffect env r created now prev) \<le> 20"
proof (cases "signal r \<noteq> NO_CLEAR_EDGE \<and> \<bar>spreadPercent r\<bar> \<ge> 0.5")
  case True
  assume le: "length prev \<le> 20"
  show ?thesis
  proof (cases "isSignificantChange prev (spreadPercent r) now")
    case sig: True
    then show ?thesis using True by (auto simp: historyEffect_def addOrUpdate_def)
  next
    case False
    then have "prev \<noteq> []" by (rule not_significant_nonempty)
    then show ?thesis
      using True False le by (cases prev) (auto simp: historyEffect_def addOrUpdate_def)
  qed
next
  case False
  assume "length prev \<le> 20"
  then show ?thesis using False by (auto simp: historyEffect_def expireAll_def)
qed

lemma length_runTicks:
  "length prev \<le> 20 \<Longrightarrow> length (runTicks env ticks prev) \<le> 20"
  unfolding runTicks_def
  by (induction ticks arbitrary: prev) (simp_all add: tickEffect_def length_historyEffect)

lemma asDetected_markOld [simp]: "asDetected (markOld now opp) = asDetected opp"
  by (simp add: asDetected_def markOld_def)

lemma asDetected_new [simp]: "asDetected (newOpportunity env r created) = newOpportunity env r created"
  by (simp add: asDetected_def newOpportunity_def)

lemma take_append_take: "take n (xs @ take n ys) = take n (xs @ ys)"
  by (simp add: min_def)

lemma significantTick_effect:
  "significantTick t prev \<Longrightarrow>
   tickEffect env prev t = map (markOld (updated_at t)) (take 20 (tickOpportunity env t # prev))"
  by (auto simp: significantTick_def tickEffect_def historyEffect_def addOrUpdate_def
      tickOpportunity_def)

lemma significantRun_history:
  "significantRun env ticks prev \<Longrightarrow> length prev \<le> 20 \<Longrightarrow>
   map asDetected (runTicks env ticks prev) =
     take 20 (rev (map (tickOpportunity env) ticks) @ map asDetected prev)"
proof (induction ticks arbitrary: prev)
  case Nil
  then show ?case by (simp add: runTicks_def)
next
  case (Cons t ts)
  let ?h = "tickEffect env prev t"
  have sig: "significantTick t prev" and run: "significantRun env ts ?h"
    using Cons.prems(1) by simp_all
  have len: "length ?h \<le> 20"
    using Cons.prems(2) by (simp add: tickEffect_def length_historyEffect)
  have h: "map asDetected ?h = take 20 (tickOpportunity env t # map asDetected prev)"
    by (simp add: significantTick_effect [OF sig] take_map tickOpportunity_def o_def)
  have "map asDetected (runTicks env (t # ts) prev) = map asDetected (runTicks env ts ?h)"
    by (simp add: runTicks_def)
  also have "\<dots> = take 20 (rev (map (tickOpportunity env) ts) @ map asDetected ?h)"
    using Cons.IH [OF run len] .
  also have "\<dots> = take 20 (rev (map (tickOpportunity env) ts)
                      @ (tickOpportunity env t # map asDetected prev))"
    unfolding h by (rule take_append_take)
  finally show ?case by simp
qed

text \<open>
  C4. On a tick with a signal and a spread of at least 0.5 percent, with a stored history:
  the most recent entry is replaced in place if and only if the spread moved by at most
  0.1 and at most 60 seconds (60000 ms, inclusive) went by since its detection; otherwise
  the new entry is prepended, the list cut to its first 20 entries and the expiry scan run
  on them. With no stored entry the new one becomes the history.
\<close>

theorem history_update_policy:
  assumes "signal r \<noteq> NO_CLEAR_EDGE" and "\<bar>spreadPercent r\<bar> \<ge> 0.5"
  shows "historyEffect env r created now (lastOpp # rest) =
           (if \<bar>opp_spreadPercent lastOpp - spreadPercent r\<bar> \<le> 0.1 \<and>
               now - opp_timestamp lastOpp \<le> 60000
            then newOpportunity env r created # rest
            else map (markOld now) (take 20 (newOpportunity env r created # lastOpp # rest))) \<and>
         historyEffect env r created now [] = [markOld now (newOpportunity env r created)]"
  using assms
  by (auto simp: historyEffect_def addOrUpdate_def isSignificantChange_def)

text \<open>
  At exactly 60000 ms the entry is replaced, although less than 60 seconds have not gone by.
\<close>

theorem replaced_at_sixty_seconds:
  "historyEffect default_fees mint_reading 60000 60000 [stored_at 0] =
     [newOpportunity default_fees mint_reading 60000] \<and>
   \<not> spec_sameOpportunity (stored_at 0) (spreadPercent mint_reading) 60000"
  by (simp add: historyEffect_def addOrUpdate_def isSignificantChange_def
      spec_sameOpportunity_def stored_at_def mint_reading_def newOpportunity_def)

theorem history_update_policy_witness:
  "signal mint_reading \<noteq> NO_CLEAR_EDGE \<and> \<bar>spreadPercent mint_reading\<bar> \<ge> 0.5 \<and>
   historyEffect default_fees mint_reading 30000 30000 [stored_at 0, stored_at (-100000)] =
     [newOpportunity default_fees mint_reading 30000, stored_at (-100000)] \<and>
   historyEffect default_fees mint_reading 90000 90000 [stored_at 0, stored_at (-100000)] =
     [newOpportunity default_fees mint_reading 90000, stored_at 0, stored_at (-100000)]"
  using history_update_policy [of mint_reading default_fees 30000 30000 "stored_at 0"
      "[stored_at (-100000)]"]
    history_update_policy [of mint_reading default_fees 90000 90000 "stored_at 0"
      "[stored_at (-100000)]"]
  by (simp add: stored_at_def mint_reading_def newOpportunity_def markOld_def)

text \<open>
  C5. On a tick that prepends a new entry, every entry kept whose status is \<open>detected\<close>
  and whose age exceeds 300000 ms becomes \<open>expired\<close>, and every other entry is left as it
  is (an age of 301000 ms flips, one of 299000 ms does not). On a tick without signal
  every \<open>detected\<close> entry becomes \<open>expired\<close>, whatever its age.
\<close>

theorem expiry_scan:
  "(signal r \<noteq> NO_CLEAR_EDGE \<and> \<bar>spreadPercent r\<bar> \<ge> 0.5 \<and>
      isSignificantChange prev (spreadPercent r) now \<longrightarrow>
    historyEffect env r created now prev =
      map (\<lambda>opp. if opp_status opp = detected \<and> now - opp_timestamp opp > 300000
                  then opp\<lparr>opp_status := expired\<rparr> else opp)
        (take 20 (newOpportunity env r created # prev))) \<and>
   (\<not> (signal r \<noteq> NO_CLEAR_EDGE \<and> \<bar>spreadPercent r\<bar> \<ge> 0.5) \<longrightarrow>
    historyEffect env r created now prev =
      map (\<lambda>opp. if opp_status opp = detected then opp\<lparr>opp_status := expired\<rparr> else opp) prev)"
proof -
  have a: "markOld now = (\<lambda>opp. if opp_status opp = detected \<and> now - opp_timestamp opp > 300000
                  then opp\<lparr>opp_status := expired\<rparr> else opp)"
    by (rule ext) (simp add: markOld_def)
  have b: "expireAll prev =
      map (\<lambda>opp. if opp_status opp = detected then opp\<lparr>opp_status := expired\<rparr> else opp) prev"
    unfolding expireAll_def by (rule map_cong) simp_all
  show ?thesis
    using a b by (auto simp: historyEffect_def addOrUpdate_def)
qed

theorem expiry_scan_witness:
  "signal mint_reading \<noteq> NO_CLEAR_EDGE \<and> \<bar>spreadPercent mint_reading\<bar> \<ge> 0.5 \<and>
   isSignificantChange [stored_at 101000, stored_at 99000] (spreadPercent mint_reading) 400000 \<and>
   historyEffect default_fees mint_reading 400000 400000 [stored_at 101000, stored_at 99000] =
     [newOpportunity default_fees mint_reading 400000, stored_at 101000,
      (stored_at 99000)\<lparr>opp_status := expired\<rparr>] \<and>
   signal quiet_reading = NO_CLEAR_EDGE \<and>
   historyEffect default_fees quiet_reading 400000 400000 [stored_at 101000] =
     [(stored_at 101000)\<lparr>opp_status := expired\<rparr>]"
  using expiry_scan [of mint_reading "[stored_at 101000, stored_at 99000]" 400000 default_fees 400000]
    expiry_scan [of quiet_reading "[stored_at 101000]" 400000 default_fees 400000]
  by (simp add: isSignificantChange_def stored_at_def mint_reading_def quiet_reading_def
      newOpportunity_def)

text \<open>
  A tick that refreshes the latest entry leaves an entry of 301000 ms \<open>detected\<close>, and a
  tick without signal expires an entry of 299000 ms.
\<close>

theorem expiry_not_by_age_on_every_tick:
  "historyEffect default_fees mint_reading 400000 400000 [stored_at 399000, stored_at 99000] =
     [newOpportunity default_fees mint_reading 400000, stored_at 99000] \<and>
   opp_status (stored_at 99000) = detected \<and>
   400000 - opp_timestamp (stored_at 99000) = 301000 \<and>
   historyEffect default_fees quiet_reading 400000 400000 [stored_at 101000] =
     [(stored_at 101000)\<lparr>opp_status := expired\<rparr>] \<and>
   opp_status (stored_at 101000) = detected \<and>
   400000 - opp_timestamp (stored_at 101000) = 299000"
  by (simp add: historyEffect_def addOrUpdate_def isSignificantChange_def expireAll_def
      stored_at_def mint_reading_def quiet_reading_def newOpportunity_def)

text \<open>
  C6. From a history of at most 20 entries (the page starts with none), the history has
  at most 20 entries after any sequence of ticks; after 25 ticks that each find a
  significant change it has exactly 20 entries, which are, status apart, the opportunities
  of the last 20 ticks, the most recent first.
\<close>

theorem history_bounded:
  assumes "length prev \<le> 20"
  shows "length (runTicks env ticks prev) \<le> 20 \<and>
         (significantRun env ticks prev \<and> length ticks = 25 \<longrightarrow>
            length (runTicks env ticks prev) = 20 \<and>
            map asDetected (runTicks env ticks prev) =
              rev (drop 5 (map (tickOpportunity env) ticks)))"
proof (intro conjI impI)
  show "length (runTicks env ticks prev) \<le> 20"
    using assms by (rule length_runTicks)
next
  assume a: "significantRun env ticks prev \<and> length ticks = 25"
  have eq: "map asDetected (runTicks env ticks prev) =
              take 20 (rev (map (tickOpportunity env) ticks) @ map asDetected prev)"
    using a assms by (intro significantRun_history) simp_all
  have "take 20 (rev (map (tickOpportunity env) ticks) @ map asDetected prev) =
          take 20 (rev (map (tickOpportunity env) ticks))"
    using a by simp
  also have "\<dots> = rev (drop 5 (map (tickOpportunity env) ticks))"
    using a by (simp add: take_rev)
  finally show m: "map asDetected (runTicks env ticks prev) =
              rev (drop 5 (map (tickOpportunity env) ticks))"
    using eq by simp
  have "length (map asDetected (runTicks env ticks prev)) = 20"
    unfolding m using a by simp
  then show "length (runTicks env ticks prev) = 20" by simp
qed

lemma rising_ticks_significant: "significantRun default_fees rising_ticks []"
  by code_simp

theorem history_bounded_witness:
  "length ([] :: ArbitrageOpportunity list) \<le> 20 \<and>
   significantRun default_fees rising_ticks [] \<and> length rising_ticks = 25 \<and>
   length (runTicks default_fees rising_ticks []) = 20 \<and>
   map asDetected (runTicks default_fees rising_ticks []) =
     rev (drop 5 (map (tickOpportunity default_fees) rising_ticks))"
  using history_bounded [of "[]" default_fees rising_ticks] rising_ticks_significant
  by (simp add: rising_ticks_def)

subsection \<open>Retrying fetch\<close>

lemma fetchWithRetry_default:
  "fetchWithRetry net url None None =
     (case attemptFetch (net url 0) of
        Inr v \<Rightarrow> ([Fetch url], Inr v)
      | Inl e0 \<Rightarrow>
         (case attemptFetch (net url 1) of
            Inr v \<Rightarrow> ([Fetch url, Wait 1000, Fetch url], Inr v)
          | Inl e1 \<Rightarrow>
             (case attemptFetch (net url 2) of
                Inr v \<Rightarrow> ([Fetch url, Wait 1000, Fetch url, Wait 2000, Fetch url], Inr v)
              | Inl e2 \<Rightarrow> ([Fetch url, Wait 1000, Fetch url, Wait 2000, Fetch url], Inl e2))))"
  by (simp add: fetchWithRetry_def fetchAttempts.simps nat_add_distrib split: sum.splits)

text \<open>
  C9. With the default parameters, for every URL and whatever the network does:
  \<open>fetchWithRetry\<close> makes at most 3 fetch attempts; it waits 1000 ms after a failed first
  attempt and 2000 ms after a failed second one, and never after the third (so no wait of
  4000 ms occurs); when all three attempts fail it throws the error of the third.
\<close>

theorem retry_schedule:
  "fetches (fst (fetchWithRetry net url None None)) \<le> 3 \<and>
   waits (fst (fetchWithRetry net url None None)) =
     take (fetches (fst (fetchWithRetry net url None None)) - 1) [1000, 2000] \<and>
   (attemptFetch (net url 0) = Inl e0 \<and> attemptFetch (net url 1) = Inl e1 \<and>
    attemptFetch (net url 2) = Inl e2 \<longrightarrow>
      fetchWithRetry net url None None =
        ([Fetch url, Wait 1000, Fetch url, Wait 2000, Fetch url], Inl e2))"
  unfolding fetchWithRetry_default by (auto split: sum.splits)

theorem retry_schedule_witness:
  "attemptFetch (failing_thrice ''/api/djed?endpoint=info'' 0) = Inl (Thrown ''Failed to fetch'') \<and>
   attemptFetch (failing_thrice ''/api/djed?endpoint=info'' 1) = Inl (HttpError 501 ''Not Implemented'') \<and>
   attemptFetch (failing_thrice ''/api/djed?endpoint=info'' 2) = Inl (HttpError 502 ''Not Implemented'') \<and>
   fetchWithRetry failing_thrice ''/api/djed?endpoint=info'' None None =
     ([Fetch ''/api/djed?endpoint=info'', Wait 1000, Fetch ''/api/djed?endpoint=info'',
       Wait 2000, Fetch ''/api/djed?endpoint=info''], Inl (HttpError 502 ''Not Implemented''))"
  using retry_schedule [of failing_thrice "''/api/djed?endpoint=info''"
      "Thrown ''Failed to fetch''" "HttpError 501 ''Not Implemented''"
      "HttpError 502 ''Not Implemented''"]
  by (simp add: attemptFetch_def failing_thrice_def)

text \<open>When every attempt fails the waits are 1000 ms and 2000 ms, and none of 4000 ms.\<close>

theorem no_four_second_wait:
  "fetchWithRetry always_down ''/api/djed?endpoint=info'' None None =
     ([Fetch ''/api/djed?endpoint=info'', Wait 1000, Fetch ''/api/djed?endpoint=info'',
       Wait 2000, Fetch ''/api/djed?endpoint=info''], Inl (Thrown ''network down'')) \<and>
   waits (fst (fetchWithRetry always_down ''/api/djed?endpoint=info'' None None)) = [1000, 2000]"
  unfolding fetchWithRetry_default by (simp add: always_down_def attemptFetch_def)

end
